theory Spec2Isabelle
  imports Main
begin

section \<open>Python primitives used by multitool.py\<close>

text \<open>
  Python integers are unbounded, so they are \<^typ>\<open>int\<close>. Python's \<open>%\<close> with a positive
  modulus gives a result in \<open>0 .. m - 1\<close> for every integer, as \<open>mod\<close> on \<^typ>\<open>int\<close> does.
  Strings are \<^typ>\<open>string\<close>; every string built here is ASCII.
\<close>

definition digit_char :: "nat \<Rightarrow> char" where
  "digit_char d = char_of (48 + d)"

fun str_nat :: "nat \<Rightarrow> string" where
  "str_nat n = (if n < 10 then [digit_char n] else str_nat (n div 10) @ [digit_char (n mod 10)])"

declare str_nat.simps [simp del]

definition str_int :: "int \<Rightarrow> string" where
  \<comment> \<open>\<open>str(n)\<close> for an integer: decimal digits, with a minus sign when negative.\<close>
  "str_int n = (if n < 0 then CHR ''-'' # str_nat (nat (- n)) else str_nat (nat n))"

definition rjust :: "nat \<Rightarrow> string \<Rightarrow> string" where
  \<comment> \<open>The format field \<open>{:>w}\<close> on a string: pad with spaces on the left up to width
      \<open>w\<close>; a longer string is kept whole.\<close>
  "rjust w s = replicate (w - length s) CHR '' '' @ s"

fun join :: "string \<Rightarrow> string list \<Rightarrow> string" where
  "join sep [] = []"
| "join sep [s] = s"
| "join sep (s # t # ss) = s @ sep @ join sep (t # ss)"

section \<open>Ordinal suffix\<close>

definition get_ordinal_suffix :: "int \<Rightarrow> string" where
  "get_ordinal_suffix n =
     (if n = 11 then ''th''
      else if n = 12 then ''th''
      else if n = 13 then ''th''
      else if n mod 10 = 1 then ''st''
      else if n mod 10 = 2 then ''nd''
      else if n mod 10 = 3 then ''rd''
      else ''th'')"

section \<open>Calendar cells and week rows\<close>

text \<open>
  A cell handed to \<open>format_week\<close> is matched against \<open>int(day)\<close>, then \<open>str(day)\<close>, then
  the wildcard, which takes \<open>None\<close>.
\<close>

datatype cell = IntDay int | StrDay string | NoDay

definition format_date_table_day :: "int \<Rightarrow> string" where
  \<comment> \<open>The format string is \<open>" {:>4} "\<close>, applied to the day followed by its suffix.\<close>
  "format_date_table_day day =
     (let day_ord = get_ordinal_suffix day
      in '' '' @ rjust 4 (str_int day @ day_ord) @ '' '')"

fun day_formatter :: "cell \<Rightarrow> string" where
  "day_formatter (IntDay day) = format_date_table_day day"
| "day_formatter (StrDay day) = '' '' @ rjust 4 (take 4 day) @ '' ''"
| "day_formatter NoDay = ''      ''"

definition format_week :: "cell list \<Rightarrow> string" where
  \<comment> \<open>The body has no check of the number of cells and no \<open>raise\<close>; the keyword
      argument \<open>formatter\<close> is never read.\<close>
  "format_week days = ''|'' @ join ''|'' (map day_formatter days) @ ''|''"


section \<open>The standard library's calendar\<close>

text \<open>
  \<open>calendar.monthrange\<close> and the \<open>datetime.date.weekday\<close> it relies on belong to the
  Python standard library, not to this repository. They are written out here after the
  library's pure-Python code: the proleptic Gregorian ordinal of a date, with day 1 being
  Monday 1 January of year 1, and \<open>weekday\<close> counting Monday as 0.
\<close>

datatype error = IllegalMonthError int

definition isleap :: "int \<Rightarrow> bool" where
  "isleap year = (year mod 4 = 0 \<and> (year mod 100 \<noteq> 0 \<or> year mod 400 = 0))"

definition mdays :: "int list" where
  "mdays = [0, 31, 28, 31, 30, 31, 30, 31, 31, 30, 31, 30, 31]"

definition days_before_month_table :: "int list" where
  "days_before_month_table = [0, 0, 31, 59, 90, 120, 151, 181, 212, 243, 273, 304, 334]"

definition days_before_year :: "int \<Rightarrow> int" where
  "days_before_year year =
     (let y = year - 1 in y * 365 + y div 4 - y div 100 + y div 400)"

definition days_before_month :: "int \<Rightarrow> int \<Rightarrow> int" where
  "days_before_month year month =
     days_before_month_table ! nat month + (if month > 2 \<and> isleap year then 1 else 0)"

definition ymd2ord :: "int \<Rightarrow> int \<Rightarrow> int \<Rightarrow> int" where
  "ymd2ord year month day = days_before_year year + days_before_month year month + day"

definition date_weekday :: "int \<Rightarrow> int \<Rightarrow> int \<Rightarrow> int" where
  \<comment> \<open>\<open>datetime.date(year, month, day).weekday()\<close>, for a date that exists.\<close>
  "date_weekday year month day = (ymd2ord year month day + 6) mod 7"

definition weekday :: "int \<Rightarrow> int \<Rightarrow> int \<Rightarrow> int" where
  \<comment> \<open>\<open>calendar.weekday\<close>: a year outside 1..9999 is replaced by one of the same
      400-year cycle.\<close>
  "weekday year month day =
     (let year = (if \<not> (1 \<le> year \<and> year \<le> 9999) then 2000 + year mod 400 else year)
      in date_weekday year month day)"

definition monthrange :: "int \<Rightarrow> int \<Rightarrow> error + (int \<times> int)" where
  "monthrange year month =
     (if \<not> (1 \<le> month \<and> month \<le> 12) then Inl (IllegalMonthError month)
      else
        let day1 = weekday year month 1;
            ndays = mdays ! nat month + (if month = 2 \<and> isleap year then 1 else 0)
        in Inr (day1, ndays))"

definition month_name :: "int \<Rightarrow> string" where
  \<comment> \<open>\<open>strftime('%B')\<close> in the C locale, for a month in 1..12.\<close>
  "month_name month =
     [''January'', ''February'', ''March'', ''April'', ''May'', ''June'', ''July'',
      ''August'', ''September'', ''October'', ''November'', ''December''] ! nat (month - 1)"

section \<open>The month table\<close>

definition adjust_weekday :: "int \<Rightarrow> int" where
  "adjust_weekday wd = (wd + 1) mod 7"

text \<open>
  The body of \<open>format_month\<close> binds its locals, prints \<open>next_week_start\<close> and ends there:
  it has no \<open>return\<close> statement. The record holds the locals at the end of the body.
\<close>

record month_locals =
  loc_year_used :: int
  loc_month_start :: int
  loc_day_count :: int
  loc_weeks :: int
  loc_first_week_cells :: "cell list"
  loc_first_week :: string
  loc_next_week_start :: int
  loc_next_week_end :: int

definition format_month_locals :: "int \<Rightarrow> int \<Rightarrow> int \<Rightarrow> error + month_locals" where
  \<comment> \<open>\<open>now_year\<close> is what \<open>datetime.now().year\<close> reads from the system clock.\<close>
  "format_month_locals now_year year month =
     (let year = (if year = 0 then now_year else year)
      in case monthrange year month of
           Inl e \<Rightarrow> Inl e
         | Inr (month_start, day_count) \<Rightarrow>
             let month_start = adjust_weekday month_start;
                 weeks = day_count div 7 + (if day_count mod 7 \<noteq> 0 then 1 else 0);
                 cells = replicate (nat month_start) NoDay
                           @ map IntDay [1 .. 8 - month_start - 1];
                 first_week = format_week cells;
                 next_week_start = 8 - month_start;
                 next_week_end = next_week_start + 7
             in Inr \<lparr> loc_year_used = year, loc_month_start = month_start,
                      loc_day_count = day_count, loc_weeks = weeks,
                      loc_first_week_cells = cells, loc_first_week = first_week,
                      loc_next_week_start = next_week_start,
                      loc_next_week_end = next_week_end \<rparr>)"

definition format_month :: "int \<Rightarrow> int \<Rightarrow> int \<Rightarrow> error + (string \<times> string option)" where
  \<comment> \<open>The result of a call: the exception raised, or the text written to standard
      output together with the value returned, \<open>None\<close> being Python's \<open>None\<close>.\<close>
  "format_month now_year year month =
     (case format_month_locals now_year year month of
        Inl e \<Rightarrow> Inl e
      | Inr l \<Rightarrow> Inr (str_int (loc_next_week_start l) @ [CHR 0x0A], None))"

section \<open>The path of a journal entry\<close>

record datetime =
  dt_year :: int
  dt_month :: int
  dt_day :: int

type_synonym path = "string list"

text \<open>
  \<open>Path\<close> is the standard library's: \<open>WindowsPath\<close> on Windows, \<open>PosixPath\<close>
  elsewhere. A path is kept as the list of its parts. The library parses a string into
  parts by cutting it at the separators (the slash, and on Windows the backslash too) and
  dropping the empty pieces and the pieces that are a single dot. \<open>windows\<close> says which
  flavour the platform gives.
\<close>

definition is_sep :: "bool \<Rightarrow> char \<Rightarrow> bool" where
  "is_sep windows c = (c = CHR ''/'' \<or> (windows \<and> c = CHR 0x5C))"

fun split_at :: "(char \<Rightarrow> bool) \<Rightarrow> string \<Rightarrow> string list" where
  "split_at P [] = [[]]"
| "split_at P (c # cs) =
     (if P c then [] # split_at P cs
      else (case split_at P cs of [] \<Rightarrow> [[c]] | piece # pieces \<Rightarrow> (c # piece) # pieces))"

definition path_parts :: "bool \<Rightarrow> string \<Rightarrow> path" where
  "path_parts windows s =
     filter (\<lambda>piece. piece \<noteq> [] \<and> piece \<noteq> ''.'') (split_at (is_sep windows) s)"

definition journal_path :: "bool \<Rightarrow> path" where
  \<comment> \<open>The literal \<open>Path(".\\journal\\")\<close>: one part on a POSIX platform, where the
      backslash is no separator, and the part \<open>journal\<close> on Windows.\<close>
  "journal_path windows = path_parts windows ([CHR ''.'', CHR 0x5C] @ ''journal'' @ [CHR 0x5C])"

definition joinpath :: "bool \<Rightarrow> path \<Rightarrow> string \<Rightarrow> path" where
  \<comment> \<open>\<open>p.joinpath(arg)\<close> for an argument that is relative and names no drive: its
      parts follow those of \<open>p\<close>. The three arguments of \<open>get_entry_path\<close> start with a
      digit or a letter, so they are of this kind.\<close>
  "joinpath windows p arg = p @ path_parts windows arg"

definition fix_extension :: "string option \<Rightarrow> string" where
  \<comment> \<open>The \<open>match extension\<close> statement: \<open>None\<close> becomes the empty string, a string
      that does not start with a dot gets one, any other string is kept.\<close>
  "fix_extension extension =
     (case extension of
        None \<Rightarrow> []
      | Some ext \<Rightarrow> if take 1 ext \<noteq> ''.'' then ''.'' @ ext else ext)"

definition entry_day_path :: "bool \<Rightarrow> datetime \<Rightarrow> string option \<Rightarrow> path" where
  \<comment> \<open>The local \<open>day_path\<close> at the end of the body of \<open>get_entry_path\<close>.\<close>
  "entry_day_path windows date extension =
     (let year_path = joinpath windows (journal_path windows) (str_int (dt_year date));
          month_path = joinpath windows year_path (month_name (dt_month date));
          ord_suffix = get_ordinal_suffix (dt_day date);
          extension = fix_extension extension;
          file_name = str_int (dt_day date) @ ord_suffix @ extension;
          day_path = joinpath windows month_path file_name
      in day_path)"

definition get_entry_path ::
  "bool \<Rightarrow> datetime \<Rightarrow> datetime option \<Rightarrow> string option \<Rightarrow> path option" where
  \<comment> \<open>\<open>now\<close> is what \<open>datetime.now()\<close> reads. The body ends after binding
      \<open>day_path\<close>, so the call returns Python's \<open>None\<close>.\<close>
  "get_entry_path windows now date extension =
     (let date = (case date of None \<Rightarrow> now | Some d \<Rightarrow> d);
          day_path = entry_day_path windows date extension
      in None)"

section \<open>Auxiliary facts\<close>

lemma str_nat_digit: "n < 10 \<Longrightarrow> str_nat n = [digit_char n]"
  by (simp add: str_nat.simps)

lemma str_nat_two:
  "10 \<le> n \<Longrightarrow> n < 100 \<Longrightarrow> str_nat n = [digit_char (n div 10), digit_char (n mod 10)]"
  by (subst str_nat.simps) (simp add: str_nat_digit)

lemma length_str_int_small: "0 \<le> n \<Longrightarrow> n < 100 \<Longrightarrow> length (str_int n) \<le> 2"
  by (cases "nat n < 10") (simp_all add: str_int_def str_nat_digit str_nat_two)

lemma length_get_ordinal_suffix: "length (get_ordinal_suffix n) = 2"
  by (simp add: get_ordinal_suffix_def)

lemma length_rjust: "length (rjust w s) = max w (length s)"
  by (simp add: rjust_def)

lemma length_day_content:
  "0 \<le> n \<Longrightarrow> n < 100 \<Longrightarrow> length (rjust 4 (str_int n @ get_ordinal_suffix n)) = 4"
  using length_str_int_small [of n]
  by (simp add: length_rjust length_get_ordinal_suffix)

lemma length_format_date_table_day:
  "0 \<le> n \<Longrightarrow> n < 100 \<Longrightarrow> length (format_date_table_day n) = 6"
  by (simp add: format_date_table_day_def length_day_content)





lemma locals_clock_free:
  "year \<noteq> 0 \<Longrightarrow> format_month_locals n1 year month = format_month_locals n2 year month"
  unfolding format_month_locals_def by (simp only: if_False)

lemma locals_clock_year: "format_month_locals n 0 month = format_month_locals n n month"
  unfolding format_month_locals_def by (simp only: simp_thms if_True if_cancel)

lemma format_month_clock_free:
  "year \<noteq> 0 \<Longrightarrow> format_month n1 year month = format_month n2 year month"
proof -
  assume "year \<noteq> 0"
  then have "format_month_locals n1 year month = format_month_locals n2 year month"
    by (rule locals_clock_free)
  then show ?thesis
    unfolding format_month_def by (simp only:)
qed

lemma format_month_clock_year: "format_month n 0 month = format_month n n month"
  unfolding format_month_def by (simp only: locals_clock_year)

lemma locals_invalid:
  "\<not> (1 \<le> month \<and> month \<le> 12) \<Longrightarrow>
     format_month_locals n year month = Inl (IllegalMonthError month)"
  by (simp add: format_month_locals_def monthrange_def Let_def)

lemma locals_valid:
  "1 \<le> month \<Longrightarrow> month \<le> 12 \<Longrightarrow>
     \<exists>l. format_month_locals n year month = Inr l
       \<and> loc_month_start l = adjust_weekday (weekday (if year = 0 then n else year) month 1)
       \<and> loc_first_week_cells l
            = replicate (nat (loc_month_start l)) NoDay @ map IntDay [1 .. 7 - loc_month_start l]
       \<and> loc_first_week l = format_week (loc_first_week_cells l)
       \<and> loc_next_week_start l = 8 - loc_month_start l"
  by (simp add: format_month_locals_def monthrange_def Let_def)

lemma format_month_invalid:
  "\<not> (1 \<le> month \<and> month \<le> 12) \<Longrightarrow>
     format_month n year month = Inl (IllegalMonthError month)"
  by (simp add: format_month_def locals_invalid)

lemma format_month_valid:
  assumes "1 \<le> month" "month \<le> 12"
  shows "\<exists>out. format_month n year month = Inr (out, None)"
proof -
  from locals_valid [OF assms, of n year]
  obtain l where "format_month_locals n year month = Inr l" by blast
  then show ?thesis by (simp add: format_month_def)
qed

lemma format_month_0_2024_2: "format_month 0 2024 2 = Inr (''4'' @ [CHR 0x0A], None)"
  by code_simp

lemma format_month_locals_0_2023_7:
  "format_month_locals 0 2023 7 =
     Inr \<lparr> loc_year_used = 2023, loc_month_start = 6, loc_day_count = 31, loc_weeks = 5,
           loc_first_week_cells = [NoDay, NoDay, NoDay, NoDay, NoDay, NoDay, IntDay 1],
           loc_first_week = ''|      |      |      |      |      |      |  1st |'',
           loc_next_week_start = 2, loc_next_week_end = 9 \<rparr>"
  by code_simp

lemma weekday_2023_7_1: "weekday 2023 7 1 = 5"
  by code_simp

lemma format_month_2023_0_1: "format_month 2023 0 1 = Inr (''8'' @ [CHR 0x0A], None)"
  by code_simp

lemma format_month_2024_0_1: "format_month 2024 0 1 = Inr (''7'' @ [CHR 0x0A], None)"
  by code_simp

lemma digits_table: "map digit_char [0..<10] = ''0123456789''"
  by code_simp

lemma digit_char_mem: "d < 10 \<Longrightarrow> digit_char d \<in> set ''0123456789''"
proof -
  assume "d < 10"
  then have "digit_char d \<in> set (map digit_char [0..<10])" by simp
  then show ?thesis by (simp only: digits_table)
qed

lemma str_nat_digits: "set (str_nat n) \<subseteq> set ''0123456789''"
proof (induction n rule: str_nat.induct)
  case (1 n)
  show ?case
  proof (cases "n < 10")
    case True
    then show ?thesis using digit_char_mem [of n] by (simp add: str_nat_digit)
  next
    case False
    have "n mod 10 < 10" by simp
    then have a: "digit_char (n mod 10) \<in> set ''0123456789''" by (rule digit_char_mem)
    have b: "set (str_nat (n div 10)) \<subseteq> set ''0123456789''" using False by (rule 1)
    have c: "str_nat n = str_nat (n div 10) @ [digit_char (n mod 10)]"
      using False by (subst str_nat.simps) simp
    show ?thesis unfolding c using a b by simp
  qed
qed

lemma str_nat_nonempty: "str_nat n \<noteq> []"
  by (subst str_nat.simps) simp


lemma digit_plain: "c \<in> set ''0123456789'' \<Longrightarrow> \<not> is_sep windows c \<and> c \<noteq> CHR ''.''"
  by (auto simp: is_sep_def)

lemma str_nat_plain: "c \<in> set (str_nat n) \<Longrightarrow> \<not> is_sep windows c \<and> c \<noteq> CHR ''.''"
  using str_nat_digits [of n] digit_plain [of c windows] by blast


lemma str_int_plain: "c \<in> set (str_int n) \<Longrightarrow> \<not> is_sep windows c \<and> c \<noteq> CHR ''.''"
proof (cases "n < 0")
  case True
  assume "c \<in> set (str_int n)"
  with True have "c = CHR ''-'' \<or> c \<in> set (str_nat (nat (- n)))"
    by (simp add: str_int_def)
  then show ?thesis
  proof
    assume "c = CHR ''-''"
    then show ?thesis by (simp add: is_sep_def)
  next
    assume "c \<in> set (str_nat (nat (- n)))"
    then show ?thesis by (rule str_nat_plain)
  qed
next
  case False
  assume "c \<in> set (str_int n)"
  with False have "c \<in> set (str_nat (nat n))" by (simp add: str_int_def)
  then show ?thesis by (rule str_nat_plain)
qed

lemma str_int_nonempty: "str_int n \<noteq> []"
  by (simp add: str_int_def str_nat_nonempty)

lemma split_at_no_sep: "\<forall>c\<in>set s. \<not> P c \<Longrightarrow> split_at P s = [s]"
  by (induction s) simp_all

lemma path_parts_single:
  assumes "\<forall>c\<in>set s. \<not> is_sep windows c" "s \<noteq> []" "s \<noteq> ''.''"
  shows "path_parts windows s = [s]"
proof -
  have "split_at (is_sep windows) s = [s]"
    using assms(1) by (rule split_at_no_sep)
  then have "path_parts windows s = filter (\<lambda>piece. piece \<noteq> [] \<and> piece \<noteq> ''.'') [s]"
    by (simp only: path_parts_def)
  also have "\<dots> = [s]"
    using assms(2,3) by simp
  finally show ?thesis .
qed

lemma path_parts_str_int: "path_parts windows (str_int n) = [str_int n]"
proof (rule path_parts_single)
  show "\<forall>c\<in>set (str_int n). \<not> is_sep windows c"
    using str_int_plain by blast
  show "str_int n \<noteq> []" by (rule str_int_nonempty)
  show "str_int n \<noteq> ''.''"
  proof
    assume "str_int n = ''.''"
    then have "CHR ''.'' \<in> set (str_int n)" by simp
    then show False using str_int_plain [of "CHR ''.''" n windows] by simp
  qed
qed

lemma month_name_table:
  "list_all (\<lambda>w. list_all (\<lambda>m. path_parts w (month_name m) = [month_name m])
     [1, 2, 3, 4, 5, 6, 7, 8, 9, 10, 11, 12]) [False, True]"
  by code_simp

lemma path_parts_month_name:
  assumes "1 \<le> m" "m \<le> 12"
  shows "path_parts windows (month_name m) = [month_name m]"
proof -
  from assms have "m = 1 \<or> m = 2 \<or> m = 3 \<or> m = 4 \<or> m = 5 \<or> m = 6 \<or> m = 7 \<or> m = 8
      \<or> m = 9 \<or> m = 10 \<or> m = 11 \<or> m = 12" by arith
  then have "m \<in> set [1, 2, 3, 4, 5, 6, 7, 8, 9, 10, 11, 12]" by simp
  moreover have "windows \<in> set [False, True]" by simp
  ultimately show ?thesis
    using month_name_table unfolding list_all_iff by blast
qed

lemma suffix_plain: "c \<in> set (get_ordinal_suffix n) \<Longrightarrow> \<not> is_sep windows c"
  by (auto simp: get_ordinal_suffix_def is_sep_def split: if_splits)

lemma fix_extension_plain:
  assumes "\<forall>ext\<in>set_option extension. \<forall>c\<in>set ext. \<not> is_sep windows c"
  shows "\<forall>c\<in>set (fix_extension extension). \<not> is_sep windows c"
proof (cases extension)
  case None
  then show ?thesis by (simp add: fix_extension_def)
next
  case (Some ext)
  with assms have "\<forall>c\<in>set ext. \<not> is_sep windows c" by simp
  moreover have "\<not> is_sep windows CHR ''.''" by (simp add: is_sep_def)
  ultimately show ?thesis using Some by (simp add: fix_extension_def)
qed

lemma path_parts_file_name:
  assumes "\<forall>c\<in>set e. \<not> is_sep windows c"
  shows "path_parts windows (str_int n @ get_ordinal_suffix n @ e)
           = [str_int n @ get_ordinal_suffix n @ e]"
proof (rule path_parts_single)
  show "\<forall>c\<in>set (str_int n @ get_ordinal_suffix n @ e). \<not> is_sep windows c"
    using assms str_int_plain [of _ n windows] suffix_plain [of _ n windows] by auto
  show "str_int n @ get_ordinal_suffix n @ e \<noteq> []"
    by (simp add: str_int_nonempty)
  show "str_int n @ get_ordinal_suffix n @ e \<noteq> ''.''"
  proof
    assume "str_int n @ get_ordinal_suffix n @ e = ''.''"
    then have "length (str_int n @ get_ordinal_suffix n @ e) = length ''.''"
      by (rule arg_cong)
    then show False by (simp add: length_get_ordinal_suffix)
  qed
qed

lemma entry_day_path_nested_extension:
  "entry_day_path False \<lparr>dt_year = 2024, dt_month = 2, dt_day = 3\<rparr> (Some ''a/b'')
     = [[CHR ''.'', CHR 0x5C] @ ''journal'' @ [CHR 0x5C], ''2024'', ''February'', ''3rd.a'', ''b'']"
  by code_simp

section \<open>The ordinal suffix\<close>

text \<open>
  Claim C4. For every integer \<open>n \<ge> 0\<close> with \<open>n % 100\<close> in \<open>{11, 12, 13}\<close> the suffix is
  "th", whatever \<open>n % 10\<close> is; in particular the suffix of 112 is "th".

  The code compares \<open>n\<close> itself with 11, 12 and 13, not \<open>n % 100\<close>. At 112, where
  \<open>n % 100 = 12\<close>, no literal matches and the branch on \<open>n % 10 = 2\<close> answers "nd".
\<close>

theorem get_ordinal_suffix_112:
  "(112::int) mod 100 = 12 \<and> get_ordinal_suffix 112 = ''nd''"
  by (simp add: get_ordinal_suffix_def)

text \<open>
  Claim C6. For every integer \<open>n \<ge> 0\<close>: when \<open>n % 10 = 1\<close> and \<open>n % 100 \<noteq> 11\<close> the
  suffix is "st"; when \<open>n % 10 = 2\<close> and \<open>n % 100 \<noteq> 12\<close> it is "nd"; when
  \<open>n % 10 = 3\<close> and \<open>n % 100 \<noteq> 13\<close> it is "rd".
\<close>

theorem get_ordinal_suffix_st_nd_rd:
  "0 \<le> n \<Longrightarrow>
     (n mod 10 = 1 \<and> n mod 100 \<noteq> 11 \<longrightarrow> get_ordinal_suffix n = ''st'') \<and>
     (n mod 10 = 2 \<and> n mod 100 \<noteq> 12 \<longrightarrow> get_ordinal_suffix n = ''nd'') \<and>
     (n mod 10 = 3 \<and> n mod 100 \<noteq> 13 \<longrightarrow> get_ordinal_suffix n = ''rd'')"
  by (auto simp: get_ordinal_suffix_def)

theorem get_ordinal_suffix_st_nd_rd_witness:
  "(0::int) \<le> 21 \<and> (21::int) mod 10 = 1 \<and> (21::int) mod 100 \<noteq> 11
   \<and> get_ordinal_suffix 21 = ''st'' \<and> get_ordinal_suffix 102 = ''nd''
   \<and> get_ordinal_suffix 3 = ''rd''"
  using get_ordinal_suffix_st_nd_rd [of 21] get_ordinal_suffix_st_nd_rd [of 102]
    get_ordinal_suffix_st_nd_rd [of 3]
  by simp

section \<open>Cells and week rows\<close>

text \<open>
  Claim C7. For every day \<open>n\<close> in 1..31, \<open>format_date_table_day n\<close> is the 6-character
  string made of one space, the day followed by its ordinal suffix right-justified in 4
  characters, and one space; the empty cell of \<open>format_week\<close> is 6 characters wide too, so
  the cells of a row all have the same width. Character by character: a space, the blanks
  that fill the field up to 4, the one or two digits of the day, the suffix, a space.
\<close>

theorem format_date_table_day_width:
  "1 \<le> n \<Longrightarrow> n \<le> 31 \<Longrightarrow>
     format_date_table_day n = '' '' @ rjust 4 (str_int n @ get_ordinal_suffix n) @ '' ''
     \<and> format_date_table_day n
         = CHR '' '' # replicate (4 - length (str_int n @ get_ordinal_suffix n)) CHR '' ''
             @ str_int n @ get_ordinal_suffix n @ [CHR '' '']
     \<and> str_int n = (if n < 10 then [digit_char (nat n)]
                    else [digit_char (nat n div 10), digit_char (nat n mod 10)])
     \<and> length (rjust 4 (str_int n @ get_ordinal_suffix n)) = 4
     \<and> length (format_date_table_day n) = 6
     \<and> length (day_formatter NoDay) = 6
     \<and> length (day_formatter (IntDay n)) = length (day_formatter NoDay)"
proof -
  assume n: "1 \<le> n" "n \<le> 31"
  have s: "str_int n = (if n < 10 then [digit_char (nat n)]
                    else [digit_char (nat n div 10), digit_char (nat n mod 10)])"
    using n by (simp add: str_int_def str_nat_digit str_nat_two)
  have l: "format_date_table_day n
         = CHR '' '' # replicate (4 - length (str_int n @ get_ordinal_suffix n)) CHR '' ''
             @ str_int n @ get_ordinal_suffix n @ [CHR '' '']"
    by (simp add: format_date_table_day_def rjust_def Let_def)
  have r: "format_date_table_day n = '' '' @ rjust 4 (str_int n @ get_ordinal_suffix n) @ '' ''"
    by (simp add: format_date_table_day_def)
  from n have w: "length (rjust 4 (str_int n @ get_ordinal_suffix n)) = 4"
      "length (format_date_table_day n) = 6"
    by (simp_all add: length_day_content length_format_date_table_day)
  from r l s w show ?thesis by simp
qed

theorem format_date_table_day_width_witness:
  "(1::int) \<le> 21 \<and> (21::int) \<le> 31
   \<and> format_date_table_day 21 = '' 21st ''
   \<and> format_date_table_day 3 = ''  3rd ''
   \<and> length (format_date_table_day 21) = 6
   \<and> length (day_formatter (IntDay 21)) = length (day_formatter NoDay)"
proof -
  have e21: "str_int 21 = ''21''" "get_ordinal_suffix 21 = ''st''" by code_simp+
  have e3: "str_int 3 = ''3''" "get_ordinal_suffix 3 = ''rd''" by code_simp+
  have h21: "(1::int) \<le> 21" "(21::int) \<le> 31" by simp_all
  have h3: "(1::int) \<le> 3" "(3::int) \<le> 31" by simp_all
  note t21 = format_date_table_day_width [OF h21]
  note t3 = format_date_table_day_width [OF h3]
  have a: "format_date_table_day 21 = '' 21st ''"
    unfolding t21 [THEN conjunct2, THEN conjunct1] e21 by simp
  have d: "format_date_table_day 3 = ''  3rd ''"
    unfolding t3 [THEN conjunct2, THEN conjunct1] e3 by simp
  from t21 have b: "length (format_date_table_day 21) = 6" by blast
  from t21 have c: "length (day_formatter (IntDay 21)) = length (day_formatter NoDay)"
    by blast
  from a b c d show ?thesis by simp
qed




section \<open>The month table\<close>

text \<open>
  Claim C1. For every year and every month in 1..12, \<open>format_month\<close> returns the week
  rows of the whole month, in order, and the non-empty cells of these rows read in order
  are 1, 2, ..., \<open>day_count\<close>.

  The code renders the first week into a local, prints \<open>next_week_start\<close> and ends
  without a \<open>return\<close>. For February 2024 the call writes "4" and a newline to standard
  output and returns \<open>None\<close>, whatever the clock says: no row is returned, none of the
  days 1..29 either.
\<close>

theorem format_month_february_2024:
  "format_month now_year 2024 2 = Inr (''4'' @ [CHR 0x0A], None)"
  using format_month_clock_free [of 2024 now_year 2 0] format_month_0_2024_2 by simp

text \<open>
  Claim C2. For every year and every month in 1..12, the number of week rows of
  \<open>format_month\<close> is \<open>ceil((start_weekday + day_count) / 7)\<close>.

  The only count of rows in the code is the local \<open>weeks\<close>, which rounds up
  \<open>day_count / 7\<close> and leaves the start of the month out. July 2023 has 31 days and
  starts on a Saturday (5 counting from Monday, 6 as the code counts from Sunday), so its
  table needs \<open>ceil(36 / 7) = 6\<close> rows, and 6 also with the code's own offset; \<open>weeks\<close>
  is 5.
\<close>

theorem format_month_weeks_july_2023:
  "\<exists>l. format_month_locals now_year 2023 7 = Inr l
     \<and> loc_day_count l = 31 \<and> weekday 2023 7 1 = 5 \<and> loc_month_start l = 6
     \<and> loc_weeks l = 5
     \<and> - ((- (weekday 2023 7 1 + loc_day_count l)) div 7) = 6
     \<and> - ((- (loc_month_start l + loc_day_count l)) div 7) = 6"
  using locals_clock_free [of 2023 now_year 7 0] format_month_locals_0_2023_7 weekday_2023_7_1
  by simp

text \<open>
  Claim C3, as amended. For every year and every month in 1..12, the offset that pads the
  first row counts the weekday of the 1st from Sunday: with \<open>wd\<close> the weekday of the 1st
  as \<open>calendar.monthrange\<close> gives it (Monday 0 to Sunday 6), the offset is 0 when
  \<open>wd = 6\<close>, a Sunday, and \<open>wd + 1\<close> otherwise, so 1 for a Monday and 6 for a Saturday.
  The first row starts with that many empty cells, followed by the days from 1 up to 7
  minus the offset.
\<close>

theorem format_month_start_sunday_first:
  assumes "1 \<le> month" "month \<le> 12"
  shows "\<exists>l wd. format_month_locals now_year year month = Inr l
     \<and> wd = weekday (if year = 0 then now_year else year) month 1
     \<and> 0 \<le> wd \<and> wd \<le> 6
     \<and> loc_month_start l = (if wd = 6 then 0 else wd + 1)
     \<and> loc_first_week_cells l
          = replicate (nat (loc_month_start l)) NoDay @ map IntDay [1 .. 7 - loc_month_start l]"
proof -
  define wd where "wd = weekday (if year = 0 then now_year else year) month 1"
  have range: "0 \<le> wd \<and> wd \<le> 6"
    by (simp add: wd_def weekday_def date_weekday_def Let_def)
  then have "adjust_weekday wd = (if wd = 6 then 0 else wd + 1)"
    by (simp add: adjust_weekday_def)
  with range locals_valid [OF assms, of now_year year] show ?thesis
    unfolding wd_def by auto
qed

theorem format_month_start_sunday_first_witness:
  "(1::int) \<le> 10 \<and> (10::int) \<le> 12 \<and>
   (\<exists>l wd. format_month_locals 2026 2023 10 = Inr l
     \<and> wd = weekday 2023 10 1
     \<and> 0 \<le> wd \<and> wd \<le> 6
     \<and> loc_month_start l = (if wd = 6 then 0 else wd + 1)
     \<and> loc_first_week_cells l
          = replicate (nat (loc_month_start l)) NoDay @ map IntDay [1 .. 7 - loc_month_start l])"
  using format_month_start_sunday_first [of 10 2026 2023] by simp

text \<open>
  Claim C3 as stated fails: 1 January 2024 is a Monday, weekday 0 counting from Monday,
  and the offset used for the first row is 1, one empty cell before day 1.
\<close>

theorem format_month_start_january_2024:
  "weekday 2024 1 1 = 0 \<and>
   format_month_locals 2026 2024 1 =
     Inr \<lparr> loc_year_used = 2024, loc_month_start = 1, loc_day_count = 31, loc_weeks = 5,
           loc_first_week_cells =
             [NoDay, IntDay 1, IntDay 2, IntDay 3, IntDay 4, IntDay 5, IntDay 6],
           loc_first_week = ''|      |  1st |  2nd |  3rd |  4th |  5th |  6th |'',
           loc_next_week_start = 7, loc_next_week_end = 14 \<rparr>"
  by code_simp

text \<open>
  Claim C8. \<open>format_month\<close> fails with the invalid-month error, the
  \<open>IllegalMonthError\<close> of \<open>calendar.monthrange\<close>, exactly when the month is outside
  1..12; for a month in 1..12 it raises nothing.
\<close>

theorem format_month_error_iff:
  "(format_month now_year year month = Inl (IllegalMonthError month)) = (month < 1 \<or> 12 < month)
   \<and> (\<exists>e. format_month now_year year month = Inl e) = (month < 1 \<or> 12 < month)"
proof (cases "1 \<le> month \<and> month \<le> 12")
  case True
  then obtain out where "format_month now_year year month = Inr (out, None)"
    using format_month_valid [of month now_year year] by blast
  with True show ?thesis by simp
next
  case False
  then show ?thesis using format_month_invalid [of month now_year year] by auto
qed

theorem format_month_error_iff_witness:
  "format_month 2026 2024 13 = Inl (IllegalMonthError 13)
   \<and> format_month 2026 2024 0 = Inl (IllegalMonthError 0)
   \<and> format_month 2026 2024 12 \<noteq> Inl (IllegalMonthError 12)"
  using format_month_error_iff [of 2026 2024 13] format_month_error_iff [of 2026 2024 0]
    format_month_error_iff [of 2026 2024 12]
  by simp

text \<open>
  Claim C10. With \<open>year = 0\<close>, \<open>format_month\<close> takes the year of the system clock in
  its place, so two calls \<open>format_month(0, m)\<close> under clocks of different years can
  differ in their output; with any other year the outcome (the text printed, the value
  returned, the error raised) depends on the year and the month only.
\<close>

theorem format_month_clock:
  "(year \<noteq> 0 \<longrightarrow> format_month n1 year month = format_month n2 year month)
   \<and> format_month n1 0 month = format_month n1 n1 month
   \<and> format_month 2023 0 1 \<noteq> format_month 2024 0 1"
  using format_month_clock_free [of year n1 month n2] format_month_clock_year [of n1 month]
  by (simp add: format_month_2023_0_1 format_month_2024_0_1)

theorem format_month_clock_witness:
  "(2024::int) \<noteq> 0 \<and> format_month 1999 2024 2 = format_month 2031 2024 2"
  using format_month_clock [of 2024 1999 2 2031] by simp

section \<open>The path of a journal entry\<close>

text \<open>
  Claim C9. For every date and every extension, \<open>get_entry_path\<close> builds the path of
  the entry in a local and neither returns nor uses it: the call returns \<open>None\<close>. The
  path it builds, for a date with a month in 1..12 and an extension that holds no
  separator, is the journal directory followed by three parts: the year, the name of the
  month, and the day with its suffix and the extension.
\<close>

theorem get_entry_path_returns_None:
  "get_entry_path windows now date extension = None
   \<and> (1 \<le> dt_month d \<and> dt_month d \<le> 12
        \<and> (\<forall>ext\<in>set_option extension. \<forall>c\<in>set ext. \<not> is_sep windows c)
      \<longrightarrow> entry_day_path windows d extension =
            journal_path windows @
            [str_int (dt_year d), month_name (dt_month d),
             str_int (dt_day d) @ get_ordinal_suffix (dt_day d) @ fix_extension extension])"
proof (intro conjI impI)
  show "get_entry_path windows now date extension = None"
    by (simp add: get_entry_path_def)
next
  assume h: "1 \<le> dt_month d \<and> dt_month d \<le> 12
        \<and> (\<forall>ext\<in>set_option extension. \<forall>c\<in>set ext. \<not> is_sep windows c)"
  then have m: "path_parts windows (month_name (dt_month d)) = [month_name (dt_month d)]"
    by (simp add: path_parts_month_name)
  from h have "\<forall>c\<in>set (fix_extension extension). \<not> is_sep windows c"
    by (intro fix_extension_plain) simp
  then have f: "path_parts windows
       (str_int (dt_day d) @ get_ordinal_suffix (dt_day d) @ fix_extension extension)
       = [str_int (dt_day d) @ get_ordinal_suffix (dt_day d) @ fix_extension extension]"
    by (rule path_parts_file_name)
  show "entry_day_path windows d extension =
            journal_path windows @
            [str_int (dt_year d), month_name (dt_month d),
             str_int (dt_day d) @ get_ordinal_suffix (dt_day d) @ fix_extension extension]"
    unfolding entry_day_path_def joinpath_def Let_def
    by (simp only: m f path_parts_str_int append_assoc append.simps)
qed

theorem get_entry_path_returns_None_witness:
  "get_entry_path False \<lparr>dt_year = 2026, dt_month = 11, dt_day = 3\<rparr>
      (Some \<lparr>dt_year = 2024, dt_month = 2, dt_day = 29\<rparr>) (Some ''md'') = None
   \<and> entry_day_path False \<lparr>dt_year = 2024, dt_month = 2, dt_day = 29\<rparr> (Some ''md'')
       = [[CHR ''.'', CHR 0x5C] @ ''journal'' @ [CHR 0x5C], ''2024'', ''February'', ''29th.md'']
   \<and> entry_day_path True \<lparr>dt_year = 2024, dt_month = 2, dt_day = 29\<rparr> (Some ''md'')
       = [''journal'', ''2024'', ''February'', ''29th.md'']"
proof -
  let ?d = "\<lparr>dt_year = 2024, dt_month = 2, dt_day = 29\<rparr>"
  let ?now = "\<lparr>dt_year = 2026, dt_month = 11, dt_day = 3\<rparr>"
  have hyp: "\<And>w. 1 \<le> dt_month ?d \<and> dt_month ?d \<le> 12
      \<and> (\<forall>ext\<in>set_option (Some ''md''). \<forall>c\<in>set ext. \<not> is_sep w c)"
    by (simp add: is_sep_def)
  have posix: "journal_path False @
      [str_int (dt_year ?d), month_name (dt_month ?d),
       str_int (dt_day ?d) @ get_ordinal_suffix (dt_day ?d) @ fix_extension (Some ''md'')]
      = [[CHR ''.'', CHR 0x5C] @ ''journal'' @ [CHR 0x5C], ''2024'', ''February'', ''29th.md'']"
    by code_simp
  have win: "journal_path True @
      [str_int (dt_year ?d), month_name (dt_month ?d),
       str_int (dt_day ?d) @ get_ordinal_suffix (dt_day ?d) @ fix_extension (Some ''md'')]
      = [''journal'', ''2024'', ''February'', ''29th.md'']"
    by code_simp
  note posix_thm = get_entry_path_returns_None [of False ?now "Some ?d" "Some ''md''" ?d]
  note win_thm = get_entry_path_returns_None [of True ?now "Some ?d" "Some ''md''" ?d]
  have none: "get_entry_path False ?now (Some ?d) (Some ''md'') = None"
    using posix_thm by (rule conjunct1)
  have "entry_day_path False ?d (Some ''md'') = journal_path False @
      [str_int (dt_year ?d), month_name (dt_month ?d),
       str_int (dt_day ?d) @ get_ordinal_suffix (dt_day ?d) @ fix_extension (Some ''md'')]"
    using posix_thm [THEN conjunct2] hyp [of False] by (rule mp)
  then have a: "entry_day_path False ?d (Some ''md'')
       = [[CHR ''.'', CHR 0x5C] @ ''journal'' @ [CHR 0x5C], ''2024'', ''February'', ''29th.md'']"
    using posix by (rule trans)
  have "entry_day_path True ?d (Some ''md'') = journal_path True @
      [str_int (dt_year ?d), month_name (dt_month ?d),
       str_int (dt_day ?d) @ get_ordinal_suffix (dt_day ?d) @ fix_extension (Some ''md'')]"
    using win_thm [THEN conjunct2] hyp [of True] by (rule mp)
  then have b: "entry_day_path True ?d (Some ''md'')
       = [''journal'', ''2024'', ''February'', ''29th.md'']"
    using win by (rule trans)
  from none a b show ?thesis by (intro conjI)
qed

end
